theory Spec2Isabelle
  imports Main
begin

section \<open>JavaScript values\<close>

text \<open>
  Exceptions are values. \<open>TypeError\<close> and \<open>SyntaxError\<close> are the
  two the runtime raises in the code below; \<open>Thrown\<close> is an exception raised by a
  callback (a mutator, a command dispatcher) with its message.
\<close>

datatype exn = TypeError | SyntaxError | Thrown string

text \<open>
  JSON-shaped data with no identity, as \<open>JSON.stringify\<close> sees it and as the
  flow engine reads it. Numbers are the integers the code computes with (ids, indices,
  counts).
\<close>

datatype jv =
    JUndefined
  | JNull
  | JBool bool
  | JNum int
  | JStr string
  | JArr "jv list"
  | JObj "(string \<times> jv) list"

text \<open>
  Objects with identity live in a heap: a value is a primitive or a reference, a
  cell is a plain object (its own properties in insertion order, the order JavaScript
  keeps for names that are not array indices) or an array (its elements, then any
  named properties set on it). A new object gets the next free address.
\<close>

datatype hval = VUndefined | VNull | VBool bool | VNum int | VStr string | VRef nat

datatype cell =
    Object "(string \<times> hval) list"
  | Array "hval list" "(string \<times> hval) list"

type_synonym heap = "cell list"

fun truthy :: "hval \<Rightarrow> bool" where
  "truthy VUndefined = False"
| "truthy VNull = False"
| "truthy (VBool b) = b"
| "truthy (VNum n) = (n \<noteq> 0)"
| "truthy (VStr s) = (s \<noteq> [])"
| "truthy (VRef r) = True"

fun digits :: "nat \<Rightarrow> string" where
  "digits n = (if n < 10 then [''0123456789'' ! n] else digits (n div 10) @ [''0123456789'' ! (n mod 10)])"

declare digits.simps [simp del]

definition show_int :: "int \<Rightarrow> string" where
  "show_int i = (if i < 0 then CHR ''-'' # digits (nat (- i)) else digits (nat i))"

fun set_key :: "string \<Rightarrow> 'v \<Rightarrow> (string \<times> 'v) list \<Rightarrow> (string \<times> 'v) list" where
  "set_key k v [] = [(k, v)]"
| "set_key k v ((k', v') # ps) = (if k' = k then (k, v) # ps else (k', v') # set_key k v ps)"

fun intercalate :: "string \<Rightarrow> string list \<Rightarrow> string" where
  "intercalate sep [] = []"
| "intercalate sep [x] = x"
| "intercalate sep (x # y # ys) = x @ sep @ intercalate sep (y # ys)"

text \<open>\<open>String(v)\<close> on JSON-shaped data.\<close>

fun js_String :: "jv \<Rightarrow> string" where
  "js_String JUndefined = ''undefined''"
| "js_String JNull = ''null''"
| "js_String (JBool b) = (if b then ''true'' else ''false'')"
| "js_String (JNum n) = show_int n"
| "js_String (JStr s) = s"
| "js_String (JArr xs) =
     intercalate '','' (map (\<lambda>x. if x = JUndefined \<or> x = JNull then [] else js_String x) xs)"
| "js_String (JObj ps) = ''[object Object]''"

section \<open>JSON.parse(JSON.stringify(x))\<close>

fun json_props :: "(string \<times> jv option) list \<Rightarrow> (string \<times> jv) list option" where
  "json_props [] = Some []"
| "json_props ((k, None) # ps) = None"
| "json_props ((k, Some v) # ps) =
     (case json_props ps of
        None \<Rightarrow> None
      | Some qs \<Rightarrow> Some (if v = JUndefined then qs else (k, v) # qs))"

fun json_elems :: "jv option list \<Rightarrow> jv list option" where
  "json_elems [] = Some []"
| "json_elems (None # xs) = None"
| "json_elems (Some v # xs) =
     (case json_elems xs of
        None \<Rightarrow> None
      | Some ys \<Rightarrow> Some ((if v = JUndefined then JNull else v) # ys))"

text \<open>
  The serialiser walks the object graph and keeps the stack of the objects it is
  inside of; it raises a TypeError when it meets one of them again, that is on a
  cyclic structure. \<open>None\<close> is that TypeError. An undefined property is left out,
  an undefined array element is written as null, the named properties of an array are
  not written.
\<close>

function to_json :: "nat list \<Rightarrow> heap \<Rightarrow> hval \<Rightarrow> jv option" where
  "to_json stack h VUndefined = Some JUndefined"
| "to_json stack h VNull = Some JNull"
| "to_json stack h (VBool b) = Some (JBool b)"
| "to_json stack h (VNum i) = Some (JNum i)"
| "to_json stack h (VStr s) = Some (JStr s)"
| "to_json stack h (VRef r) =
     (if r < length h \<and> r \<notin> set stack then
        (case h ! r of
           Object ps \<Rightarrow>
             map_option JObj (json_props (map (\<lambda>(k, v). (k, to_json (r # stack) h v)) ps))
         | Array vs ps \<Rightarrow> map_option JArr (json_elems (map (to_json (r # stack) h) vs)))
      else None)"
  by pat_completeness auto
termination
proof -
  have less: "card ({..<length h} - set stack) - Suc 0 < card ({..<length h} - set stack)"
    if "r < length h" and "r \<notin> set stack" for h :: heap and r :: nat and stack :: "nat list"
  proof -
    from that have "r \<in> {..<length h} - set stack" by simp
    then have "0 < card ({..<length h} - set stack)" by (auto simp: card_gt_0_iff)
    then show ?thesis by simp
  qed
  show ?thesis
    by (relation "measure (\<lambda>(stack, h, v). card ({..<length h} - set stack))")
       (auto intro: less)
qed

definition JSON_stringify :: "heap \<Rightarrow> hval \<Rightarrow> jv option" where
  "JSON_stringify h v = to_json [] h v"

text \<open>The parser builds fresh objects, children before their parent.\<close>

fun from_json :: "jv \<Rightarrow> heap \<Rightarrow> hval \<times> heap"
  and from_json_list :: "jv list \<Rightarrow> heap \<Rightarrow> hval list \<times> heap" where
  "from_json JUndefined h = (VUndefined, h)"
| "from_json JNull h = (VNull, h)"
| "from_json (JBool b) h = (VBool b, h)"
| "from_json (JNum i) h = (VNum i, h)"
| "from_json (JStr s) h = (VStr s, h)"
| "from_json (JArr xs) h =
     (let (vs, h') = from_json_list xs h in (VRef (length h'), h' @ [Array vs []]))"
| "from_json (JObj ps) h =
     (let (vs, h') = from_json_list (map snd ps) h
      in (VRef (length h'), h' @ [Object (zip (map fst ps) vs)]))"
| "from_json_list [] h = ([], h)"
| "from_json_list (x # xs) h =
     (let (v, h1) = from_json x h; (vs, h2) = from_json_list xs h1 in (v # vs, h2))"

definition JSON_clone :: "heap \<Rightarrow> hval \<Rightarrow> exn + hval \<times> heap" where
  "JSON_clone h v =
     (case JSON_stringify h v of
        None \<Rightarrow> Inl TypeError
      | Some t \<Rightarrow> if t = JUndefined then Inl SyntaxError else Inr (from_json t h))"

section \<open>Property access on heap values\<close>

text \<open>
  \<open>o.k = x\<close> for a name \<open>k\<close> that is not an array index. The module is
  strict code: the assignment raises a TypeError on undefined, null and on a primitive.
\<close>

fun set_prop :: "hval \<Rightarrow> string \<Rightarrow> hval \<Rightarrow> heap \<Rightarrow> exn + heap" where
  "set_prop (VRef r) k x h =
     (if r < length h then
        Inr (h[r := (case h ! r of
                       Object ps \<Rightarrow> Object (set_key k x ps)
                     | Array vs ps \<Rightarrow> Array vs (set_key k x ps))])
      else Inl TypeError)"
| "set_prop v k x h = Inl TypeError"

text \<open>\<open>o.k\<close> for such a name, on a value that is neither undefined nor null.\<close>

fun get_named :: "heap \<Rightarrow> hval \<Rightarrow> string \<Rightarrow> hval" where
  "get_named h (VRef r) k =
     (if r < length h then
        (case map_of (case h ! r of Object ps \<Rightarrow> ps | Array vs ps \<Rightarrow> ps) k of
           None \<Rightarrow> VUndefined
         | Some v \<Rightarrow> v)
      else VUndefined)"
| "get_named h v k = VUndefined"

text \<open>The own enumerable properties an object spread \<open>{...v}\<close> copies.\<close>

fun spread :: "heap \<Rightarrow> hval \<Rightarrow> (string \<times> hval) list" where
  "spread h (VRef r) =
     (if r < length h then
        (case h ! r of
           Object ps \<Rightarrow> ps
         | Array vs ps \<Rightarrow> zip (map digits [0..<length vs]) vs @ ps)
      else [])"
| "spread h (VStr s) = zip (map digits [0..<length s]) (map (\<lambda>c. VStr [c]) s)"
| "spread h v = []"

text \<open>
  The text a template literal makes of a value. An array is joined from its
  elements; for a cyclic array, which no snapshot label is, the empty text stands in.
\<close>

fun template_text :: "heap \<Rightarrow> hval \<Rightarrow> string" where
  "template_text h VUndefined = ''undefined''"
| "template_text h VNull = ''null''"
| "template_text h (VBool b) = (if b then ''true'' else ''false'')"
| "template_text h (VNum n) = show_int n"
| "template_text h (VStr s) = s"
| "template_text h (VRef r) =
     (if r < length h then
        (case h ! r of
           Object ps \<Rightarrow> ''[object Object]''
         | Array vs ps \<Rightarrow>
             (case JSON_stringify h (VRef r) of None \<Rightarrow> [] | Some t \<Rightarrow> js_String t))
      else [])"

section \<open>The history engine (useHistory)\<close>

text \<open>
  The hook's three state variables, and the heap its snapshots live in. Each
  operation below is the callback of the latest render, so the values it closes over
  (\<open>currentSnapshot\<close>, \<open>currentIndex\<close>, \<open>history.length\<close>, \<open>canUndo\<close>, ...)
  are those of the state it is applied to.
\<close>

record hstate =
  heap :: heap
  history :: "hval list"
  currentIndex :: int
  commitIndex :: int

definition js_index :: "hval list \<Rightarrow> int \<Rightarrow> hval" where
  "js_index xs i = (if 0 \<le> i \<and> i < int (length xs) then xs ! nat i else VUndefined)"

text \<open>\<open>xs.slice(0, e)\<close>: a negative end counts from the end of the array.\<close>

definition js_slice0 :: "'a list \<Rightarrow> int \<Rightarrow> 'a list" where
  "js_slice0 xs e =
     (let n = int (length xs);
          fin = (if e < 0 then max (n + e) 0 else min e n)
      in take (nat fin) xs)"

definition useHistory :: "heap \<Rightarrow> hval \<Rightarrow> hstate" where
  "useHistory h initialSnapshot =
     \<lparr>heap = h, history = [initialSnapshot], currentIndex = 0, commitIndex = 0\<rparr>"

definition currentSnapshot :: "hstate \<Rightarrow> hval" where
  "currentSnapshot st = js_index (history st) (currentIndex st)"

definition uncommittedSteps :: "hstate \<Rightarrow> int" where
  "uncommittedSteps st = currentIndex st - commitIndex st"

definition canUndo :: "hstate \<Rightarrow> bool" where
  "canUndo st = (currentIndex st > commitIndex st)"

definition canRedo :: "hstate \<Rightarrow> bool" where
  "canRedo st = (currentIndex st < int (length (history st)) - 1)"

text \<open>
  A mutator is a caller's function: it is handed the clone and may write to the
  heap and may throw. \<open>None\<close> for the argument is a value that is not a function.
\<close>

type_synonym mutator = "hval \<Rightarrow> heap \<Rightarrow> exn option \<times> heap"

definition call_mutator :: "mutator option \<Rightarrow> hval \<Rightarrow> heap \<Rightarrow> exn option \<times> heap" where
  "call_mutator mutator clone h =
     (case mutator of None \<Rightarrow> (None, h) | Some f \<Rightarrow> f clone h)"

text \<open>
  \<open>clone.id = stepId; clone.label = label; clone.timestamp = now\<close>, the clock's
  reading being an input.
\<close>

definition stamp :: "hval \<Rightarrow> int \<Rightarrow> string \<Rightarrow> string \<Rightarrow> heap \<Rightarrow> exn + heap" where
  "stamp clone stepId label now h =
     (case set_prop clone ''id'' (VNum stepId) h of
        Inl e \<Rightarrow> Inl e
      | Inr h1 \<Rightarrow>
          (case set_prop clone ''label'' (VStr label) h1 of
             Inl e \<Rightarrow> Inl e
           | Inr h2 \<Rightarrow> set_prop clone ''timestamp'' (VStr now) h2))"

text \<open>
  applyChange returns the exception it raised, if any, and the state it leaves. The
  state setters are reached only when nothing before them has thrown.
\<close>

definition applyChange :: "string \<Rightarrow> mutator option \<Rightarrow> string \<Rightarrow> hstate \<Rightarrow> exn option \<times> hstate" where
  "applyChange label mutator now st =
     (let base = currentSnapshot st in
      case JSON_clone (heap st) base of
        Inl e \<Rightarrow> (Some e, st)
      | Inr (clone, h1) \<Rightarrow>
          (case call_mutator mutator clone h1 of
             (Some e, h2) \<Rightarrow> (Some e, st\<lparr>heap := h2\<rparr>)
           | (None, h2) \<Rightarrow>
               (let stepId = int (length (history st)) in
                case stamp clone stepId label now h2 of
                  Inl e \<Rightarrow> (Some e, st\<lparr>heap := h2\<rparr>)
                | Inr h3 \<Rightarrow>
                    (None, st\<lparr>heap := h3,
                               history := js_slice0 (history st) (currentIndex st + 1) @ [clone],
                               currentIndex := currentIndex st + 1\<rparr>))))"

definition undo :: "hstate \<Rightarrow> hstate" where
  "undo st = (if \<not> canUndo st then st else st\<lparr>currentIndex := currentIndex st - 1\<rparr>)"

definition redo :: "hstate \<Rightarrow> hstate" where
  "redo st = (if \<not> canRedo st then st else st\<lparr>currentIndex := currentIndex st + 1\<rparr>)"

definition commit :: "hstate \<Rightarrow> hstate" where
  "commit st =
     (let snap = js_index (history st) (currentIndex st) in
      if \<not> truthy snap then st\<lparr>commitIndex := currentIndex st\<rparr>
      else
        let label = (let l = get_named (heap st) snap ''label''
                     in if truthy l then template_text (heap st) l else ''Snapshot'');
            updated = Object (set_key ''label'' (VStr (label @ '' (committed)''))
                               (set_key ''committed'' (VBool True) (spread (heap st) snap)))
        in st\<lparr>heap := heap st @ [updated],
               history := (history st)[nat (currentIndex st) := VRef (length (heap st))],
               commitIndex := currentIndex st\<rparr>)"

definition jump :: "int \<Rightarrow> hstate \<Rightarrow> hstate" where
  "jump index st =
     (if index < commitIndex st \<or> index < 0 \<or> index \<ge> int (length (history st)) then st
      else st\<lparr>currentIndex := index\<rparr>)"

datatype op =
    ApplyChange string "mutator option" string
  | Undo
  | Redo
  | Commit
  | Jump int

fun step :: "op \<Rightarrow> hstate \<Rightarrow> hstate" where
  "step (ApplyChange label mutator now) st = snd (applyChange label mutator now st)"
| "step Undo st = undo st"
| "step Redo st = redo st"
| "step Commit st = commit st"
| "step (Jump i) st = jump i st"

definition run :: "op list \<Rightarrow> hstate \<Rightarrow> hstate" where
  "run ops st = fold step ops st"


section \<open>Reachable objects\<close>

fun val_refs :: "hval \<Rightarrow> nat set" where
  "val_refs (VRef r) = {r}"
| "val_refs v = {}"

fun cell_vals :: "cell \<Rightarrow> hval list" where
  "cell_vals (Object ps) = map snd ps"
| "cell_vals (Array vs ps) = vs @ map snd ps"

definition cell_refs :: "cell \<Rightarrow> nat set" where
  "cell_refs c = (\<Union>v \<in> set (cell_vals c). val_refs v)"

text \<open>The addresses of the objects that can be reached from a value.\<close>

inductive_set reach :: "heap \<Rightarrow> hval \<Rightarrow> nat set" for h :: heap and v :: hval where
  root: "r \<in> val_refs v \<Longrightarrow> r < length h \<Longrightarrow> r \<in> reach h v"
| child: "a \<in> reach h v \<Longrightarrow> r \<in> cell_refs (h ! a) \<Longrightarrow> r < length h \<Longrightarrow> r \<in> reach h v"

section \<open>The flow engine (FlowEngine.js)\<close>

subsection \<open>Reading JSON-shaped data\<close>

text \<open>
  The flow engine only reads its payload, snapshot and flow definitions, so they are
  values of type \<open>jv\<close>. Properties inherited from the built-in prototypes are not
  part of this data.
\<close>

fun jtruthy :: "jv \<Rightarrow> bool" where
  "jtruthy JUndefined = False"
| "jtruthy JNull = False"
| "jtruthy (JBool b) = b"
| "jtruthy (JNum n) = (n \<noteq> 0)"
| "jtruthy (JStr s) = (s \<noteq> [])"
| "jtruthy (JArr xs) = True"
| "jtruthy (JObj ps) = True"

definition lookup :: "(string \<times> jv) list \<Rightarrow> string \<Rightarrow> jv" where
  "lookup ps k = (case map_of ps k of None \<Rightarrow> JUndefined | Some v \<Rightarrow> v)"

text \<open>The element of \<open>xs\<close> whose index is written \<open>k\<close>, if \<open>k\<close> is an index.\<close>

definition at_index :: "'a list \<Rightarrow> string \<Rightarrow> 'a option" where
  "at_index xs k =
     (case filter (\<lambda>i. digits i = k) [0..<length xs] of [] \<Rightarrow> None | i # _ \<Rightarrow> Some (xs ! i))"

text \<open>\<open>current[part]\<close>: a TypeError on undefined and null.\<close>

fun get_prop :: "jv \<Rightarrow> string \<Rightarrow> exn + jv" where
  "get_prop JUndefined k = Inl TypeError"
| "get_prop JNull k = Inl TypeError"
| "get_prop (JBool b) k = Inr JUndefined"
| "get_prop (JNum n) k = Inr JUndefined"
| "get_prop (JStr s) k =
     (if k = ''length'' then Inr (JNum (int (length s)))
      else case at_index s k of None \<Rightarrow> Inr JUndefined | Some c \<Rightarrow> Inr (JStr [c]))"
| "get_prop (JArr xs) k =
     (if k = ''length'' then Inr (JNum (int (length xs)))
      else case at_index xs k of None \<Rightarrow> Inr JUndefined | Some x \<Rightarrow> Inr x)"
| "get_prop (JObj ps) k = Inr (lookup ps k)"

text \<open>\<open>path.split('.')\<close>\<close>

fun split_dot :: "string \<Rightarrow> string list" where
  "split_dot [] = [[]]"
| "split_dot (c # cs) =
     (if c = CHR ''.'' then [] # split_dot cs
      else case split_dot cs of [] \<Rightarrow> [[c]] | p # ps \<Rightarrow> (c # p) # ps)"

fun walk :: "string list \<Rightarrow> jv \<Rightarrow> exn + jv" where
  "walk [] current = Inr current"
| "walk (part # parts) current =
     (if current = JUndefined \<or> current = JNull then Inr JUndefined
      else case get_prop current part of Inl e \<Rightarrow> Inl e | Inr v \<Rightarrow> walk parts v)"

definition getValueFromPath :: "jv \<Rightarrow> string \<Rightarrow> exn + jv" where
  "getValueFromPath obj path =
     (if \<not> jtruthy obj \<or> path = [] then Inr JUndefined else walk (split_dot path) obj)"

text \<open>
  \<open>getValueFromPath(eventPayload, p) || getValueFromPath(context.currentSnapshot, p)\<close>,
  the expression both the conditions and the interpolation resolve a path with.
\<close>

definition resolve :: "jv \<Rightarrow> jv \<Rightarrow> string \<Rightarrow> exn + jv" where
  "resolve eventPayload snapshot path =
     (case getValueFromPath eventPayload path of
        Inl e \<Rightarrow> Inl e
      | Inr v \<Rightarrow> if jtruthy v then Inr v else getValueFromPath snapshot path)"

subsection \<open>Interpolation\<close>

text \<open>
  A match of \<open>/\{\{([^}]+)\}\}/\<close> at the start of a text: two opening braces, the
  longest run of characters other than a closing brace, not empty, and two closing
  braces. The result is the captured path and the text after the match.
\<close>

definition token_at :: "string \<Rightarrow> (string \<times> string) option" where
  "token_at s =
     (case s of
        a # b # r \<Rightarrow>
          (if a = CHR ''{'' \<and> b = CHR ''{'' then
             (let path = takeWhile (\<lambda>c. c \<noteq> CHR ''}'') r;
                  after = dropWhile (\<lambda>c. c \<noteq> CHR ''}'') r
              in if path \<noteq> [] \<and> take 2 after = ''}}'' then Some (path, drop 2 after) else None)
           else None)
      | _ \<Rightarrow> None)"

function replace_tokens :: "(string \<Rightarrow> exn + string) \<Rightarrow> string \<Rightarrow> exn + string" where
  "replace_tokens f [] = Inr []"
| "replace_tokens f (c # cs) =
     (case token_at (c # cs) of
        None \<Rightarrow> (case replace_tokens f cs of Inl e \<Rightarrow> Inl e | Inr out \<Rightarrow> Inr (c # out))
      | Some (path, rest) \<Rightarrow>
          (case f path of
             Inl e \<Rightarrow> Inl e
           | Inr replacement \<Rightarrow>
               (case replace_tokens f rest of Inl e \<Rightarrow> Inl e | Inr out \<Rightarrow> Inr (replacement @ out))))"
  by pat_completeness auto
termination
proof (relation "measure (\<lambda>(f, s). length s)")
  fix f :: "string \<Rightarrow> exn + string" and c cs x2 path rest
  assume "token_at (c # cs) = Some x2" and "(path, rest) = x2"
  then have "token_at (c # cs) = Some (path, rest)" by simp
  then obtain b r where "cs = b # r" and "rest = drop 2 (dropWhile (\<lambda>c. c \<noteq> CHR ''}'') r)"
    by (auto simp: token_at_def Let_def split: list.splits if_splits)
  moreover have "length (dropWhile (\<lambda>c. c \<noteq> CHR ''}'') r) \<le> length r"
    by (rule length_dropWhile_le)
  ultimately show "((f, rest), f, c # cs) \<in> measure (\<lambda>(f, s). length s)" by simp
qed simp_all

record ctx =
  cx_currentSnapshot :: jv
  cx_runCommand :: "(jv \<Rightarrow> exn option) option"
  cx_addAiSystemMessage :: "(string \<Rightarrow> exn option) option"

definition replacer :: "jv \<Rightarrow> ctx \<Rightarrow> string \<Rightarrow> exn + string" where
  "replacer eventPayload context path =
     (case resolve eventPayload (cx_currentSnapshot context) path of
        Inl e \<Rightarrow> Inl e
      | Inr v \<Rightarrow> Inr (if v \<noteq> JUndefined then js_String v else ''{{'' @ path @ ''}}''))"

definition interpolateVariables :: "jv \<Rightarrow> jv \<Rightarrow> ctx \<Rightarrow> exn + jv" where
  "interpolateVariables str eventPayload context =
     (case str of
        JStr s \<Rightarrow>
          (case replace_tokens (replacer eventPayload context) s of
             Inl e \<Rightarrow> Inl e
           | Inr out \<Rightarrow> Inr (JStr out))
      | _ \<Rightarrow> Inr str)"

subsection \<open>Conditions\<close>

text \<open>
  What the code takes from its surroundings: the order of \<open>Number(a) < Number(b)\<close>
  on values (IEEE arithmetic, not modelled), the notification constructor when
  \<open>Notification\<close> is defined and permitted, and \<open>console[level]\<close> applied to a
  message (\<open>None\<close> when that property is not truthy). A callback is modelled by
  whether it returns or throws on its argument.
\<close>

record runtime =
  number_less :: "jv \<Rightarrow> jv \<Rightarrow> bool"
  new_Notification :: "(jv \<Rightarrow> jv \<Rightarrow> exn option) option"
  console_call :: "jv \<Rightarrow> jv \<Rightarrow> exn option option"

record condition =
  field :: string
  operator :: string
  expectedValue :: jv

text \<open>
  \<open>a === b\<close>. An object or an array is equal only to itself, and the value a
  condition names is an object of the flow definition, never one of the payload or the
  snapshot.
\<close>

fun strict_eq :: "jv \<Rightarrow> jv \<Rightarrow> bool" where
  "strict_eq (JArr xs) b = False"
| "strict_eq (JObj ps) b = False"
| "strict_eq a b = (a = b)"

fun starts_with :: "string \<Rightarrow> string \<Rightarrow> bool" where
  "starts_with s [] = True"
| "starts_with [] (n # ns) = False"
| "starts_with (c # cs) (n # ns) = (c = n \<and> starts_with cs ns)"

fun str_includes :: "string \<Rightarrow> string \<Rightarrow> bool" where
  "str_includes [] n = (n = [])"
| "str_includes (c # cs) n = (starts_with (c # cs) n \<or> str_includes cs n)"

definition evaluateCondition :: "runtime \<Rightarrow> jv \<Rightarrow> ctx \<Rightarrow> condition \<Rightarrow> exn + bool" where
  "evaluateCondition rt eventPayload context c =
     (case resolve eventPayload (cx_currentSnapshot context) (field c) of
        Inl e \<Rightarrow> Inl e
      | Inr actualValue \<Rightarrow>
          Inr (if operator c = ''equals'' then strict_eq actualValue (expectedValue c)
               else if operator c = ''not_equals'' then \<not> strict_eq actualValue (expectedValue c)
               else if operator c = ''contains'' then
                 str_includes (js_String actualValue) (js_String (expectedValue c))
               else if operator c = ''greater_than'' then
                 number_less rt (expectedValue c) actualValue
               else if operator c = ''less_than'' then
                 number_less rt actualValue (expectedValue c)
               else if operator c = ''exists'' then
                 actualValue \<noteq> JUndefined \<and> actualValue \<noteq> JNull
               else if operator c = ''not_exists'' then
                 actualValue = JUndefined \<or> actualValue = JNull
               else False))"

text \<open>\<open>conditions.every(...)\<close> stops at the first condition that is false.\<close>

fun evaluateConditions :: "runtime \<Rightarrow> condition list \<Rightarrow> jv \<Rightarrow> ctx \<Rightarrow> exn + bool" where
  "evaluateConditions rt [] eventPayload context = Inr True"
| "evaluateConditions rt (c # cs) eventPayload context =
     (case evaluateCondition rt eventPayload context c of
        Inl e \<Rightarrow> Inl e
      | Inr b \<Rightarrow> if b then evaluateConditions rt cs eventPayload context else Inr False)"

subsection \<open>Action executors\<close>

record action =
  atype :: string
  config :: "(string \<times> jv) list"

definition after_call :: "exn option \<Rightarrow> exn + 'a \<Rightarrow> exn + 'a" where
  "after_call outcome k = (case outcome of Some e \<Rightarrow> Inl e | None \<Rightarrow> k)"

definition bell :: string where
  "bell = [CHR 0xF0, CHR 0x9F, CHR 0x94, CHR 0x94, CHR '' '']"

definition showNotification :: "runtime \<Rightarrow> (string \<times> jv) list \<Rightarrow> jv \<Rightarrow> ctx \<Rightarrow> exn + jv" where
  "showNotification rt cfg eventPayload context =
     (case interpolateVariables (lookup cfg ''message'') eventPayload context of
        Inl e \<Rightarrow> Inl e
      | Inr message \<Rightarrow>
          (case (if jtruthy (lookup cfg ''title'')
                 then interpolateVariables (lookup cfg ''title'') eventPayload context
                 else Inr (JStr ''Flow Notification'')) of
             Inl e \<Rightarrow> Inl e
           | Inr title \<Rightarrow>
               after_call (case new_Notification rt of None \<Rightarrow> None | Some f \<Rightarrow> f title message)
                 (after_call (case cx_addAiSystemMessage context of
                                None \<Rightarrow> None
                              | Some f \<Rightarrow> f (bell @ js_String message))
                    (Inr (JObj [(''success'', JBool True), (''message'', message)])))))"

text \<open>The keys \<open>for (key in params)\<close> visits with the values \<open>params[key]\<close>.\<close>

fun own_entries :: "jv \<Rightarrow> (string \<times> jv) list" where
  "own_entries (JObj ps) = ps"
| "own_entries (JArr xs) = zip (map digits [0..<length xs]) xs"
| "own_entries (JStr s) = zip (map digits [0..<length s]) (map (\<lambda>c. JStr [c]) s)"
| "own_entries v = []"

fun interpolate_entries :: "(string \<times> jv) list \<Rightarrow> jv \<Rightarrow> ctx \<Rightarrow> exn + (string \<times> jv) list" where
  "interpolate_entries [] eventPayload context = Inr []"
| "interpolate_entries ((k, v) # ps) eventPayload context =
     (case interpolateVariables v eventPayload context of
        Inl e \<Rightarrow> Inl e
      | Inr v' \<Rightarrow>
          (case interpolate_entries ps eventPayload context of
             Inl e \<Rightarrow> Inl e
           | Inr qs \<Rightarrow> Inr ((k, v') # qs)))"

definition runCommand :: "(string \<times> jv) list \<Rightarrow> jv \<Rightarrow> ctx \<Rightarrow> exn + jv" where
  "runCommand cfg eventPayload context =
     (case cx_runCommand context of
        None \<Rightarrow> Inr (JObj [(''success'', JBool False),
                            (''reason'', JStr ''No runCommand function available'')])
      | Some dispatch \<Rightarrow>
          (let params = (if lookup cfg ''params'' = JUndefined then JObj []
                         else lookup cfg ''params'') in
           case interpolate_entries (own_entries params) eventPayload context of
             Inl e \<Rightarrow> Inl e
           | Inr interpolatedParams \<Rightarrow>
               (let command = JObj (fold (\<lambda>(k, v). set_key k v) interpolatedParams
                                      [(''type'', lookup cfg ''commandType'')])
                in after_call (dispatch command)
                     (Inr (JObj [(''success'', JBool True), (''command'', command)])))))"

definition updateField :: "(string \<times> jv) list \<Rightarrow> jv \<Rightarrow> ctx \<Rightarrow> exn + jv" where
  "updateField cfg eventPayload context =
     (case interpolateVariables (lookup cfg ''targetId'') eventPayload context of
        Inl e \<Rightarrow> Inl e
      | Inr targetId \<Rightarrow>
          (case interpolateVariables (lookup cfg ''value'') eventPayload context of
             Inl e \<Rightarrow> Inl e
           | Inr val \<Rightarrow>
               (case (if lookup cfg ''targetType'' = JStr ''task'' then cx_runCommand context
                      else None) of
                  Some dispatch \<Rightarrow>
                    after_call
                      (dispatch (JObj [(''type'', JStr ''UpdateTaskField''), (''taskId'', targetId),
                                       (''field'', lookup cfg ''field''), (''value'', val)]))
                      (Inr (JObj [(''success'', JBool True),
                                  (''updated'', JObj [(''targetId'', targetId),
                                                     (''field'', lookup cfg ''field''),
                                                     (''value'', val)])]))
                | None \<Rightarrow>
                    Inr (JObj [(''success'', JBool False),
                               (''reason'', JStr (''Unsupported target type: ''
                                                    @ js_String (lookup cfg ''targetType'')))]))))"

definition logMessage :: "runtime \<Rightarrow> (string \<times> jv) list \<Rightarrow> jv \<Rightarrow> ctx \<Rightarrow> exn + jv" where
  "logMessage rt cfg eventPayload context =
     (case interpolateVariables (lookup cfg ''message'') eventPayload context of
        Inl e \<Rightarrow> Inl e
      | Inr message \<Rightarrow>
          (let level = (if jtruthy (lookup cfg ''level'') then lookup cfg ''level''
                        else JStr ''info'') in
           after_call (case console_call rt level message of None \<Rightarrow> None | Some r \<Rightarrow> r)
             (Inr (JObj [(''success'', JBool True), (''message'', message), (''level'', level)]))))"

definition executeAction :: "runtime \<Rightarrow> action \<Rightarrow> jv \<Rightarrow> ctx \<Rightarrow> exn + jv" where
  "executeAction rt a eventPayload context =
     (if atype a = ''show_notification'' then showNotification rt (config a) eventPayload context
      else if atype a = ''run_command'' then runCommand (config a) eventPayload context
      else if atype a = ''update_field'' then updateField (config a) eventPayload context
      else if atype a = ''log_message'' then logMessage rt (config a) eventPayload context
      else Inr (JObj [(''success'', JBool False),
                      (''reason'', JStr (''Unknown action type: '' @ atype a))]))"

subsection \<open>executeFlow and the execution log\<close>

record flow =
  flow_id :: string
  flow_name :: string
  enabled :: bool
  sendToBackend :: bool
  conditions :: "condition list"
  actions :: "action list"

text \<open>
  An entry of \<open>errors\<close> holds the exception; the code keeps its message,
  \<open>error.message || String(error)\<close>. An entry made by the outer \<open>catch\<close> has no
  action index.
\<close>

record error_entry =
  actionIndex :: "nat option"
  error :: exn

record performed =
  index :: nat
  ptype :: string
  result :: jv

record execution_record =
  exec_id :: string
  exec_flowId :: string
  exec_flowName :: string
  exec_eventType :: jv
  startTime :: string
  status :: string
  reason :: "string option"
  actionsPerformed :: "performed list"
  errors :: "error_entry list"
  duration :: "int option"

text \<open>The readings of the clock and of the random source one call makes.\<close>

record clock =
  id_ms :: int
  random_hex :: string
  start_ms :: int
  start_iso :: string
  end_ms :: int

record flow_result =
  success :: bool
  res_reason :: "string option"
  executionId :: "string option"
  res_actionsPerformed :: "nat option"
  res_errors :: "error_entry list option"

text \<open>
  The body of \<open>flow.actions.forEach((action, index) => { try ... catch ... })\<close>:
  the result of an action that returns is pushed on \<open>actionsPerformed\<close>, the exception
  of one that throws on \<open>errors\<close>, and the loop goes on.
\<close>

fun run_actions :: "runtime \<Rightarrow> jv \<Rightarrow> ctx \<Rightarrow> nat \<Rightarrow> action list \<Rightarrow> execution_record \<Rightarrow> execution_record" where
  "run_actions rt eventPayload context i [] executionLog = executionLog"
| "run_actions rt eventPayload context i (a # as) executionLog =
     run_actions rt eventPayload context (Suc i) as
       (case executeAction rt a eventPayload context of
          Inr r \<Rightarrow>
            executionLog\<lparr>actionsPerformed :=
              actionsPerformed executionLog @ [\<lparr>index = i, ptype = atype a, result = r\<rparr>]\<rparr>
        | Inl actionError \<Rightarrow>
            executionLog\<lparr>errors :=
              errors executionLog @ [\<lparr>actionIndex = Some i, error = actionError\<rparr>]\<rparr>)"

text \<open>
  The code after the outer \<open>try\<close>: the record goes to the front of the log, the log
  is cut to its first 100 entries, and the result is made from the record.
\<close>

definition finish :: "execution_record \<Rightarrow> execution_record list \<Rightarrow> flow_result \<times> execution_record list" where
  "finish executionLog flowExecutionHistory =
     (let h1 = executionLog # flowExecutionHistory;
          h2 = (if length h1 > 100 then take 100 h1 else h1)
      in (\<lparr>success = (status executionLog = ''completed''),
           res_reason = None,
           executionId = Some (exec_id executionLog),
           res_actionsPerformed = Some (length (actionsPerformed executionLog)),
           res_errors = Some (errors executionLog)\<rparr>, h2))"

text \<open>
  executeFlow reads and updates the module's \<open>flowExecutionHistory\<close>. The payload
  is an object, given by its properties. The relay to the backend, when
  \<open>flow.sendToBackend !== false\<close>, only writes to a sink and swallows what that
  throws: it changes neither the record nor the control flow.
\<close>

definition executeFlow ::
  "runtime \<Rightarrow> clock \<Rightarrow> flow option \<Rightarrow> (string \<times> jv) list \<Rightarrow> ctx \<Rightarrow> execution_record list
     \<Rightarrow> flow_result \<times> execution_record list" where
  "executeFlow rt clk fl payload context flowExecutionHistory =
     (case (case fl of None \<Rightarrow> None | Some f \<Rightarrow> if enabled f then Some f else None) of
        None \<Rightarrow>
          (\<lparr>success = False, res_reason = Some ''Flow disabled or not found'',
            executionId = None, res_actionsPerformed = None, res_errors = None\<rparr>,
           flowExecutionHistory)
      | Some f \<Rightarrow>
          (let eid = ''exec-'' @ show_int (id_ms clk) @ ''-'' @ random_hex clk;
               executionLog =
                 \<lparr>exec_id = eid, exec_flowId = flow_id f, exec_flowName = flow_name f,
                  exec_eventType = lookup payload ''eventType'', startTime = start_iso clk,
                  status = ''running'', reason = None, actionsPerformed = [], errors = [],
                  duration = None\<rparr>
           in case (if conditions f \<noteq> []
                    then evaluateConditions rt (conditions f) (JObj payload) context
                    else Inr True) of
                Inr False \<Rightarrow>
                  (\<lparr>success = False, res_reason = Some ''Conditions not met'',
                    executionId = Some eid, res_actionsPerformed = None, res_errors = None\<rparr>,
                   executionLog\<lparr>status := ''skipped'', reason := Some ''Conditions not met''\<rparr>
                     # flowExecutionHistory)
              | Inr True \<Rightarrow>
                  (let log1 = run_actions rt (JObj payload) context 0 (actions f) executionLog
                   in finish
                        (log1\<lparr>status := (if length (errors log1) > 0 then ''completed_with_errors''
                                          else ''completed''),
                              duration := Some (end_ms clk - start_ms clk)\<rparr>)
                        flowExecutionHistory)
              | Inl e \<Rightarrow>
                  finish
                    (executionLog\<lparr>status := ''failed'',
                                  errors := errors executionLog @ [\<lparr>actionIndex = None, error = e\<rparr>]\<rparr>)
                    flowExecutionHistory))"

section \<open>Example data\<close>

text \<open>
  A heap with one snapshot \<open>{id: 0, view: 'Board', tasks: []}\<close> at address 1, the
  hook started on it, and the states after one change and after that change has been
  undone.
\<close>

definition heap0 :: heap where
  "heap0 = [Array [] [], Object [(''id'', VNum 0), (''view'', VStr ''Board''), (''tasks'', VRef 0)]]"

definition state0 :: hstate where
  "state0 = useHistory heap0 (VRef 1)"

definition state1 :: hstate where
  "state1 = run [ApplyChange ''first'' None ''10:00:00''] state0"

definition state1_undone :: hstate where
  "state1_undone = run [ApplyChange ''first'' None ''10:00:00'', Undo] state0"

definition failing_mutator :: mutator where
  "failing_mutator clone h = (Some (Thrown ''boom''), h)"

text \<open>
  For the flow engine: a runtime without a notification sink whose console accepts
  every level, the readings of one call's clock, a context whose dispatcher throws,
  three actions, and three flows: \<open>flow3\<close> with three actions of which the second
  throws, \<open>flow_doc\<close> with one action that returns \<open>{success: false}\<close>, and
  \<open>flow_checklist\<close>, the flow of the initial library that has a condition, with the
  payload of a task dropped on another column.
\<close>

definition runtime0 :: runtime where
  "runtime0 = \<lparr>number_less = (\<lambda>a b. False), new_Notification = None,
               console_call = (\<lambda>level message. Some None)\<rparr>"

definition clock0 :: clock where
  "clock0 = \<lparr>id_ms = 1000, random_hex = ''8f3a'', start_ms = 1000,
             start_iso = ''1970-01-01T00:00:01.000Z'', end_ms = 1002\<rparr>"

definition context0 :: ctx where
  "context0 = \<lparr>cx_currentSnapshot = JObj [(''count'', JNum 5)],
               cx_runCommand = Some (\<lambda>command. Some (Thrown ''boom'')),
               cx_addAiSystemMessage = None\<rparr>"

definition log_a :: action where
  "log_a = \<lparr>atype = ''log_message'', config = [(''message'', JStr ''a'')]\<rparr>"

definition run_b :: action where
  "run_b = \<lparr>atype = ''run_command'', config = [(''commandType'', JStr ''SetView'')]\<rparr>"

definition update_doc :: action where
  "update_doc = \<lparr>atype = ''update_field'', config = [(''targetType'', JStr ''doc'')]\<rparr>"

definition flow3 :: flow where
  "flow3 = \<lparr>flow_id = ''flow-3'', flow_name = ''three actions'', enabled = True,
            sendToBackend = True, conditions = [], actions = [log_a, run_b, log_a]\<rparr>"

definition flow_doc :: flow where
  "flow_doc = \<lparr>flow_id = ''flow-doc'', flow_name = ''update a document'', enabled = True,
               sendToBackend = True, conditions = [], actions = [update_doc]\<rparr>"

definition flow_checklist :: flow where
  "flow_checklist =
     \<lparr>flow_id = ''flow-checklist-on-task-start'', flow_name = ''Open checklist when work starts'',
      enabled = True, sendToBackend = True,
      conditions = [\<lparr>field = ''toStatus'', operator = ''equals'',
                     expectedValue = JStr ''In Progress''\<rparr>],
      actions = [\<lparr>atype = ''show_notification'',
                  config = [(''title'', JStr ''Task Started''),
                            (''message'', JStr ''Task {{taskId}} is now in progress!'')]\<rparr>]\<rparr>"

definition dropped_to_done :: "(string \<times> jv) list" where
  "dropped_to_done =
     [(''eventType'', JStr ''task.dropped''), (''taskId'', JStr ''T-101''),
      (''fromStatus'', JStr ''In Progress''), (''toStatus'', JStr ''Done'')]"


section \<open>Heap extension\<close>

text \<open>
  \<open>extends h h'\<close>: \<open>h'\<close> is \<open>h\<close> followed by new cells, and the new cells refer
  to new cells only. \<open>fresh_val h h' v\<close>: the value \<open>v\<close> refers to a new cell, if to
  any.
\<close>

definition extends :: "heap \<Rightarrow> heap \<Rightarrow> bool" where
  "extends h h' =
     (\<exists>new. h' = h @ new \<and> (\<forall>c \<in> set new. \<forall>r \<in> cell_refs c. length h \<le> r \<and> r < length h'))"

definition fresh_val :: "heap \<Rightarrow> heap \<Rightarrow> hval \<Rightarrow> bool" where
  "fresh_val h h' v = (\<forall>r \<in> val_refs v. length h \<le> r \<and> r < length h')"



section \<open>Lemmas on the history engine\<close>


















lemma set_prop_ref:
  "set_prop c k x h = Inr h' \<Longrightarrow> \<exists>r. c = VRef r \<and> r < length h \<and> length h' = length h"
  by (cases c) (auto split: if_splits)







section \<open>Lemmas on cloning\<close>

lemma extends_refl: "extends h h"
  by (simp add: extends_def)

lemma extends_length: "extends h h' \<Longrightarrow> length h \<le> length h'"
  by (auto simp: extends_def)

lemma extends_take: "extends h h' \<Longrightarrow> take (length h) h' = h"
  by (auto simp: extends_def)

lemma extends_trans:
  assumes "extends h h1" and "extends h1 h2"
  shows "extends h h2"
proof -
  from assms(1) obtain n1 where n1: "h1 = h @ n1"
    "\<forall>c \<in> set n1. \<forall>r \<in> cell_refs c. length h \<le> r \<and> r < length h1"
    by (auto simp: extends_def)
  from assms(2) obtain n2 where n2: "h2 = h1 @ n2"
    "\<forall>c \<in> set n2. \<forall>r \<in> cell_refs c. length h1 \<le> r \<and> r < length h2"
    by (auto simp: extends_def)
  have "h2 = h @ (n1 @ n2)" using n1(1) n2(1) by simp
  moreover have "\<forall>c \<in> set (n1 @ n2). \<forall>r \<in> cell_refs c. length h \<le> r \<and> r < length h2"
    using n1 n2 by fastforce
  ultimately show ?thesis unfolding extends_def by blast
qed

lemma extends_alloc:
  assumes "extends h h'" and "\<forall>r \<in> cell_refs c. length h \<le> r \<and> r < length h'"
  shows "extends h (h' @ [c])"
proof -
  from assms(1) obtain n1 where n1: "h' = h @ n1"
    "\<forall>c \<in> set n1. \<forall>r \<in> cell_refs c. length h \<le> r \<and> r < length h'"
    by (auto simp: extends_def)
  have "h' @ [c] = h @ (n1 @ [c])" using n1(1) by simp
  moreover have "\<forall>d \<in> set (n1 @ [c]). \<forall>r \<in> cell_refs d. length h \<le> r \<and> r < length (h' @ [c])"
    using n1(2) assms(2) by fastforce
  ultimately show ?thesis unfolding extends_def by blast
qed

lemma from_json_extends:
  "from_json t h = (v, h') \<Longrightarrow> extends h h' \<and> fresh_val h h' v"
  "from_json_list ts h = (vs, h') \<Longrightarrow> extends h h' \<and> (\<forall>v \<in> set vs. fresh_val h h' v)"
proof (induction t h and ts h arbitrary: v h' and vs h' rule: from_json_from_json_list.induct)
  case (6 xs h)
  from "6.prems" obtain ws g where
    l: "from_json_list xs h = (ws, g)" and v: "v = VRef (length g)" and h': "h' = g @ [Array ws []]"
    by (auto simp: Let_def split: prod.splits)
  from "6.IH" [OF l] have e: "extends h g" and f: "\<forall>w \<in> set ws. fresh_val h g w" by simp_all
  have "\<forall>r \<in> cell_refs (Array ws []). length h \<le> r \<and> r < length g"
    using f by (auto simp: cell_refs_def fresh_val_def)
  from extends_alloc [OF e this] extends_length [OF e] show ?case
    by (simp add: v h' fresh_val_def)
next
  case (7 ps h)
  from "7.prems" obtain ws g where
    l: "from_json_list (map snd ps) h = (ws, g)" and v: "v = VRef (length g)"
    and h': "h' = g @ [Object (zip (map fst ps) ws)]"
    by (auto simp: Let_def split: prod.splits)
  from "7.IH" [OF l] have e: "extends h g" and f: "\<forall>w \<in> set ws. fresh_val h g w" by simp_all
  have "set (map snd (zip (map fst ps) ws)) \<subseteq> set ws"
    by (auto dest: set_zip_rightD)
  then have "\<forall>r \<in> cell_refs (Object (zip (map fst ps) ws)). length h \<le> r \<and> r < length g"
    using f unfolding cell_refs_def fresh_val_def cell_vals.simps by blast
  from extends_alloc [OF e this] extends_length [OF e] show ?case
    by (simp add: v h' fresh_val_def)
next
  case (9 x xs h)
  from "9.prems" obtain w g ws where
    a: "from_json x h = (w, g)" and b: "from_json_list xs g = (ws, h')" and vs: "vs = w # ws"
    by (auto simp: Let_def split: prod.splits)
  from "9.IH"(1) [OF a] have e1: "extends h g" and f1: "fresh_val h g w" by simp_all
  from "9.IH"(2) [OF a [symmetric] refl b] have e2: "extends g h'" and f2: "\<forall>v \<in> set ws. fresh_val g h' v"
    by simp_all
  have "fresh_val h h' w" using f1 extends_length [OF e2] by (auto simp: fresh_val_def)
  moreover have "\<forall>v \<in> set ws. fresh_val h h' v"
    using f2 extends_length [OF e1] by (fastforce simp: fresh_val_def)
  ultimately show ?case using extends_trans [OF e1 e2] by (simp add: vs)
qed (auto simp: extends_refl fresh_val_def)

lemma reach_fresh:
  assumes "extends h h'" and "fresh_val h h' v"
  shows "reach h' v \<subseteq> {length h..<length h'}"
proof
  fix a assume "a \<in> reach h' v"
  then show "a \<in> {length h..<length h'}"
  proof (induction rule: reach.induct)
    case (root r)
    then show ?case using assms(2) by (auto simp: fresh_val_def)
  next
    case (child a r)
    from assms(1) obtain new where n: "h' = h @ new"
      "\<forall>c \<in> set new. \<forall>r \<in> cell_refs c. length h \<le> r \<and> r < length h'"
      by (auto simp: extends_def)
    from child.IH have "h' ! a \<in> set new"
      using n(1) by (auto simp: nth_append)
    with n(2) child.hyps(2) show ?case by auto
  qed
qed

lemma JSON_clone_fresh:
  assumes "JSON_clone h v = Inr (c, h')"
  shows "take (length h) h' = h \<and> reach h' c \<subseteq> {length h..<length h'} \<and> fresh_val h h' c"
proof -
  from assms obtain t where "from_json t h = (c, h')"
    by (auto simp: JSON_clone_def split: option.splits if_splits)
  from from_json_extends(1) [OF this] show ?thesis
    by (simp add: extends_take reach_fresh)
qed










lemma applyChange_returns:
  assumes "JSON_stringify (heap st) (currentSnapshot st) = Some (JObj ps)"
  shows "fst (applyChange label None now st) = None"
  using assms
  by (simp add: applyChange_def JSON_clone_def call_mutator_def stamp_def Let_def
      split: prod.splits)

section \<open>The claims on the history engine\<close>

text \<open>The definitions that evaluate the engine on given data.\<close>

lemmas hist_eval = run_def applyChange_def useHistory_def currentSnapshot_def js_index_def
  JSON_clone_def JSON_stringify_def call_mutator_def stamp_def js_slice0_def undo_def redo_def
  canUndo_def canRedo_def commit_def jump_def Let_def heap0_def state0_def state1_def
  state1_undone_def failing_mutator_def





text \<open>
  Claim C7. When the mutator throws, applyChange raises that exception before it
  reaches a state setter: no snapshot is appended, and the snapshot list, currentIndex,
  commitIndex and the current snapshot are what they were. The mutator was handed a
  clone made of new objects only, with every earlier object as it was, so the
  snapshot the change started from is altered by nothing the engine does: the heap
  the call leaves is the one the mutator left, with every earlier object unchanged
  unless the mutator itself wrote to one.
\<close>

theorem applyChange_fail_atomic:
  assumes "JSON_clone (heap st) (currentSnapshot st) = Inr (clone, h1)"
      and "f clone h1 = (Some e, h2)"
  shows "fst (applyChange label (Some f) now st) = Some e
       \<and> history (snd (applyChange label (Some f) now st)) = history st
       \<and> currentIndex (snd (applyChange label (Some f) now st)) = currentIndex st
       \<and> commitIndex (snd (applyChange label (Some f) now st)) = commitIndex st
       \<and> currentSnapshot (snd (applyChange label (Some f) now st)) = currentSnapshot st
       \<and> take (length (heap st)) h1 = heap st
       \<and> reach h1 clone \<subseteq> {length (heap st)..<length h1}
       \<and> heap (snd (applyChange label (Some f) now st)) = h2
       \<and> (take (length (heap st)) h2 = heap st \<longrightarrow>
            take (length (heap st)) (heap (snd (applyChange label (Some f) now st))) = heap st)"
proof -
  have "applyChange label (Some f) now st = (Some e, st\<lparr>heap := h2\<rparr>)"
    using assms by (simp add: applyChange_def call_mutator_def)
  with JSON_clone_fresh [OF assms(1)] show ?thesis
    by (simp add: currentSnapshot_def)
qed

theorem applyChange_fail_atomic_witness:
  "fst (applyChange ''second'' (Some failing_mutator) ''10:00:05'' state1) = Some (Thrown ''boom'')
   \<and> history (snd (applyChange ''second'' (Some failing_mutator) ''10:00:05'' state1)) = [VRef 1, VRef 3]
   \<and> history state1 = [VRef 1, VRef 3]
   \<and> currentIndex (snd (applyChange ''second'' (Some failing_mutator) ''10:00:05'' state1)) = 1
   \<and> commitIndex (snd (applyChange ''second'' (Some failing_mutator) ''10:00:05'' state1)) = 0"
proof -
  have s: "state1 = \<lparr>heap = heap0 @ [Array [] [],
                    Object [(''id'', VNum 1), (''view'', VStr ''Board''), (''tasks'', VRef 2),
                            (''label'', VStr ''first''), (''timestamp'', VStr ''10:00:00'')]],
             history = [VRef 1, VRef 3], currentIndex = 1, commitIndex = 0\<rparr>"
    by (simp add: hist_eval)
  have c: "JSON_clone (heap state1) (currentSnapshot state1) =
      Inr (VRef 5, heap state1 @ [Array [] [],
                    Object [(''id'', VNum 1), (''view'', VStr ''Board''), (''tasks'', VRef 4),
                            (''label'', VStr ''first''), (''timestamp'', VStr ''10:00:00'')]])"
    by (simp add: s hist_eval)
  have m: "failing_mutator (VRef 5) (heap state1 @ [Array [] [],
                    Object [(''id'', VNum 1), (''view'', VStr ''Board''), (''tasks'', VRef 4),
                            (''label'', VStr ''first''), (''timestamp'', VStr ''10:00:00'')]])
           = (Some (Thrown ''boom''), heap state1 @ [Array [] [],
                    Object [(''id'', VNum 1), (''view'', VStr ''Board''), (''tasks'', VRef 4),
                            (''label'', VStr ''first''), (''timestamp'', VStr ''10:00:00'')]])"
    by (simp add: failing_mutator_def)
  from applyChange_fail_atomic [where f = failing_mutator and label = "''second''"
      and now = "''10:00:05''", OF c m]
  show ?thesis
    by (simp add: s)
qed







section \<open>Lemmas on the flow engine\<close>













lemma executeFlow_run:
  assumes "enabled f"
      and "evaluateConditions rt (conditions f) (JObj payload) cx = Inr True"
  shows "executeFlow rt clk (Some f) payload cx log =
     (let executionLog =
            \<lparr>exec_id = ''exec-'' @ show_int (id_ms clk) @ ''-'' @ random_hex clk,
             exec_flowId = flow_id f, exec_flowName = flow_name f,
             exec_eventType = lookup payload ''eventType'', startTime = start_iso clk,
             status = ''running'', reason = None, actionsPerformed = [], errors = [],
             duration = None\<rparr>;
          log1 = run_actions rt (JObj payload) cx 0 (actions f) executionLog
      in finish
           (log1\<lparr>status := (if length (errors log1) > 0 then ''completed_with_errors''
                             else ''completed''),
                 duration := Some (end_ms clk - start_ms clk)\<rparr>)
           log)"
  using assms by (simp add: executeFlow_def Let_def)



lemma executeFlow_skip:
  assumes "enabled f" and "conditions f \<noteq> []"
      and "evaluateConditions rt (conditions f) (JObj payload) cx = Inr False"
  shows "\<exists>r. snd (executeFlow rt clk (Some f) payload cx log) = r # log \<and> status r = ''skipped''"
  using assms by (simp add: executeFlow_def Let_def)

lemma fold_skip_length:
  assumes "enabled f" and "conditions f \<noteq> []"
      and "evaluateConditions rt (conditions f) (JObj payload) cx = Inr False"
  shows "length (fold (\<lambda>clk log. snd (executeFlow rt clk (Some f) payload cx log)) clks log)
           = length clks + length log"
proof (induction clks arbitrary: log)
  case Nil
  show ?case by simp
next
  case (Cons clk clks)
  from executeFlow_skip [OF assms, of clk log] obtain r where
    "snd (executeFlow rt clk (Some f) payload cx log) = r # log" by blast
  then show ?case by (simp add: Cons.IH)
qed

lemma finish_length: "length (snd (finish r log)) = min 100 (Suc (length log))"
  by (simp add: finish_def Let_def)

lemma executeFlow_run_length:
  assumes "enabled f"
      and "evaluateConditions rt (conditions f) (JObj payload) cx = Inr True"
  shows "length (snd (executeFlow rt clk (Some f) payload cx log)) = min 100 (Suc (length log))"
  unfolding executeFlow_run [OF assms] by (simp add: Let_def finish_length)

lemma fold_run_length:
  assumes "enabled f"
      and "evaluateConditions rt (conditions f) (JObj payload) cx = Inr True"
  shows "length (fold (\<lambda>clk log. snd (executeFlow rt clk (Some f) payload cx log)) clks log)
           = (if clks = [] then length log else min 100 (length clks + length log))"
proof (induction clks arbitrary: log)
  case Nil
  show ?case by simp
next
  case (Cons clk clks)
  show ?case
    by (simp add: Cons.IH executeFlow_run_length [OF assms] min_def)
qed

section \<open>The claims on the flow engine\<close>

text \<open>The definitions that evaluate the engine on given data.\<close>

lemmas flow_eval = runtime0_def clock0_def context0_def log_a_def run_b_def update_doc_def
  flow3_def flow_doc_def flow_checklist_def dropped_to_done_def executeFlow_def finish_def executeAction_def
  logMessage_def runCommand_def updateField_def showNotification_def interpolateVariables_def
  replacer_def resolve_def getValueFromPath_def token_at_def evaluateCondition_def lookup_def
  after_call_def Let_def show_int_def digits.simps












text \<open>
  Claim C5 at a failing input. From an empty log, 101 executions of a flow whose
  condition is not met leave 101 records: the skip path puts its record in the log
  and returns before the log is cut to 100. The same number of executions of a flow
  that runs leaves 100.
\<close>

theorem skipped_executions_exceed_capacity:
  "length (fold (\<lambda>clk log. snd (executeFlow runtime0 clk (Some flow_checklist)
                                 dropped_to_done context0 log))
             (map (\<lambda>i. clock0\<lparr>id_ms := int i\<rparr>) [0..<101]) []) = 101
   \<and> length (fold (\<lambda>clk log. snd (executeFlow runtime0 clk (Some flow3) [] context0 log))
             (map (\<lambda>i. clock0\<lparr>id_ms := int i\<rparr>) [0..<101]) []) = 100"
proof -
  have a: "enabled flow_checklist" "conditions flow_checklist \<noteq> []"
    by (simp_all add: flow_checklist_def)
  have b: "evaluateConditions runtime0 (conditions flow_checklist) (JObj dropped_to_done) context0
             = Inr False"
    by (simp add: flow_eval)
  have c: "enabled flow3" by (simp add: flow3_def)
  have d: "evaluateConditions runtime0 (conditions flow3) (JObj []) context0 = Inr True"
    by (simp add: flow3_def)
  show ?thesis
    by (simp add: fold_skip_length [OF a b] fold_run_length [OF c d])
qed

end
